theory Spec2Isabelle
  imports Main
begin

section \<open>Data model (models/Product.js, Cart.js, Order.js, Payment.js)\<close>

text \<open>
  Mongo ObjectIds are abstract identifiers, modelled as natural numbers. Dates are
  milliseconds since the epoch. JavaScript numbers are modelled as unbounded integers:
  quantities and stock counters are integral in every stored document, and prices are
  taken in integral units (floating-point rounding of prices is outside this model).
  The stored documents are taken to satisfy their schemas (the \<open>min\<close> bounds on
  stock, reservedStock, price and quantity), and the validators that Mongoose runs on
  \<open>save\<close> and \<open>create\<close> are not re-run by the model: on such documents the
  values the services write pass them (a reservation adds a quantity of at least 1, a
  commit is checked for negative counters before the save, a release is clamped at zero,
  an order copies the cart's quantities and the products' prices). Where a property
  depends on the bounds, they are explicit hypotheses.
\<close>

type_synonym objectId = nat
type_synonym date = int

datatype order_status = PENDING_PAYMENT | PAID | SHIPPED | DELIVERED | CANCELLED

datatype payment_status = SUCCESS | FAILED

record product =
  price :: int
  stock :: int
  reservedStock :: int

text \<open>A cart line; an order line extends it by the frozen price.\<close>

record cart_item =
  productId :: objectId
  quantity :: int

record order_item = cart_item +
  priceAtPurchase :: int

record order =
  userId :: objectId
  items :: "order_item list"
  totalAmount :: int
  status :: order_status
  paymentDeadline :: date

text \<open>The status field of a payment is called \<open>paymentStatus\<close> here, since
  \<open>status\<close> is the order's field.\<close>

record payment =
  orderId :: objectId
  transactionId :: string
  amount :: int
  paymentStatus :: payment_status

text \<open>
  The store. Products are keyed by their id (they can be absent); carts are keyed by the
  owning user (the schema's unique index on \<open>userId\<close>); orders and payments are
  collections that only grow, and the \<open>_id\<close> of an order is its position in the
  collection, so that \<open>Order.create\<close> always yields a fresh id. \<open>timers\<close> holds
  the pending \<open>setTimeout\<close> callbacks of \<open>scheduleOrderCancellation\<close> as
  (order id, delay); \<open>users\<close> maps a user to the e-mail address and \<open>emailQueue\<close>
  holds the jobs given to \<open>queueConfirmationEmail\<close>.
\<close>

record db =
  products :: "objectId \<rightharpoonup> product"
  carts :: "objectId \<rightharpoonup> cart_item list"
  orders :: "order list"
  payments :: "payment list"
  timers :: "(objectId \<times> int) list"
  users :: "objectId \<rightharpoonup> string"
  emailQueue :: "(objectId \<times> string \<times> int) list"

text \<open>
  Every \<open>throw\<close> of the services. The constructors carry what the message
  interpolates; \<open>statusCode\<close> is the \<open>error.statusCode\<close> the code sets (the
  error handler's default 500 where none is set).
\<close>

datatype error =
    EmptyCart
  | ProductNotFound
  | InsufficientStock int
  | OrderNotFound
  | Forbidden
  | InvalidState order_status
  | DeadlineExpired
  | InvariantViolation
  | InvalidTransition order_status order_status
  | TypeError
  | DuplicateKey

fun statusCode :: "error \<Rightarrow> nat" where
  "statusCode EmptyCart = 400"
| "statusCode ProductNotFound = 404"
| "statusCode (InsufficientStock a) = 400"
| "statusCode OrderNotFound = 404"
| "statusCode Forbidden = 403"
| "statusCode (InvalidState st) = 400"
| "statusCode DeadlineExpired = 400"
| "statusCode InvariantViolation = 500"
| "statusCode (InvalidTransition a b) = 400"
| "statusCode TypeError = 500"
| "statusCode DuplicateKey = 400"

section \<open>Store access\<close>

text \<open>\<open>Order.findById\<close>: \<open>None\<close> is the \<open>null\<close> of a missing document.\<close>

definition findOrderById :: "db \<Rightarrow> objectId \<Rightarrow> order option" where
  "findOrderById s i = (if i < length (orders s) then Some (orders s ! i) else None)"

text \<open>\<open>order.save()\<close> of a document loaded by \<open>findById\<close>.\<close>

definition saveOrder :: "db \<Rightarrow> objectId \<Rightarrow> order \<Rightarrow> db" where
  "saveOrder s i ord = s\<lparr>orders := (orders s)[i := ord]\<rparr>"

text \<open>\<open>product.save()\<close>.\<close>

definition saveProduct :: "db \<Rightarrow> objectId \<Rightarrow> product \<Rightarrow> db" where
  "saveProduct s pid p = s\<lparr>products := (products s)(pid \<mapsto> p)\<rparr>"

text \<open>\<open>.populate('items.productId')\<close>: each line with the product document its
  reference resolves to, \<open>null\<close> when the product is gone.\<close>

definition populate :: "db \<Rightarrow> ('a cart_item_scheme) list \<Rightarrow> ('a cart_item_scheme \<times> product option) list" where
  "populate s its = map (\<lambda>it. (it, products s (productId it))) its"

section \<open>Checkout (orderService: checkout, checkoutWithTransaction, checkoutWithoutTransaction)\<close>

text \<open>
  The \<open>for (const item of cart.items)\<close> loop, identical in both variants. The state
  is threaded through, so an error leaves the products saved by the earlier iterations
  in the returned state. \<open>item.productId._id\<close> on a line whose populated product is
  \<open>null\<close> is a TypeError.
\<close>

fun checkoutLoop ::
  "db \<Rightarrow> (cart_item \<times> product option) list \<Rightarrow> order_item list \<Rightarrow> int
    \<Rightarrow> (error + order_item list \<times> int) \<times> db" where
  "checkoutLoop s [] orderItems sumSoFar = (Inr (orderItems, sumSoFar), s)"
| "checkoutLoop s ((item, populated) # rest) orderItems sumSoFar =
     (case populated of
        None \<Rightarrow> (Inl TypeError, s)
      | Some _ \<Rightarrow>
         (case products s (productId item) of
            None \<Rightarrow> (Inl ProductNotFound, s)
          | Some p \<Rightarrow>
              let availableStock = stock p - reservedStock p in
              if availableStock < quantity item then (Inl (InsufficientStock availableStock), s)
              else checkoutLoop
                     (saveProduct s (productId item) (p\<lparr>reservedStock := reservedStock p + quantity item\<rparr>))
                     rest
                     (orderItems @ [\<lparr>productId = productId item, quantity = quantity item,
                                     priceAtPurchase = price p\<rparr>])
                     (sumSoFar + price p * quantity item)))"

text \<open>\<open>process.env.ORDER_PAYMENT_TIMEOUT_MINUTES || 15\<close>: \<open>None\<close> is the unset
  (or empty) variable.\<close>

definition timeoutMinutes :: "int option \<Rightarrow> int" where
  "timeoutMinutes env = (case env of None \<Rightarrow> 15 | Some m \<Rightarrow> m)"

text \<open>The body of the \<open>try\<close> block up to and including \<open>Order.create\<close>, which
  the two variants share word for word. \<open>now\<close> is the \<open>Date.now()\<close> of the
  deadline computation.\<close>

definition checkoutSteps :: "int option \<Rightarrow> date \<Rightarrow> db \<Rightarrow> objectId \<Rightarrow> (error + objectId \<times> order) \<times> db" where
  "checkoutSteps env now s uid =
     (case carts s uid of
        None \<Rightarrow> (Inl EmptyCart, s)
      | Some cartItems \<Rightarrow>
          if length cartItems = 0 then (Inl EmptyCart, s)
          else
            (case checkoutLoop s (populate s cartItems) [] 0 of
               (Inl e, s1) \<Rightarrow> (Inl e, s1)
             | (Inr (orderItems, sumSoFar), s1) \<Rightarrow>
                 let ord = \<lparr>userId = uid, items = orderItems, totalAmount = sumSoFar,
                            status = PENDING_PAYMENT,
                            paymentDeadline = now + timeoutMinutes env * 60 * 1000\<rparr>
                 in (Inr (length (orders s1), ord), s1\<lparr>orders := orders s1 @ [ord]\<rparr>)))"

text \<open>\<open>scheduleOrderCancellation\<close>: a timer is armed only for a positive delay;
  \<open>now2\<close> is its own \<open>Date.now()\<close>.\<close>

definition scheduleOrderCancellation :: "db \<Rightarrow> objectId \<Rightarrow> date \<Rightarrow> date \<Rightarrow> db" where
  "scheduleOrderCancellation s oid deadline now2 =
     (let delay = deadline - now2 in
      if delay > 0 then s\<lparr>timers := timers s @ [(oid, delay)]\<rparr> else s)"

text \<open>Fallback variant: every save is immediately visible; \<open>catch (error) { throw error; }\<close>
  rethrows and undoes nothing.\<close>

definition checkoutWithoutTransaction ::
  "int option \<Rightarrow> date \<Rightarrow> date \<Rightarrow> db \<Rightarrow> objectId \<Rightarrow> (error + objectId \<times> order) \<times> db" where
  "checkoutWithoutTransaction env now now2 s uid =
     (case checkoutSteps env now s uid of
        (Inl e, s1) \<Rightarrow> (Inl e, s1)
      | (Inr (oid, ord), s1) \<Rightarrow>
          (Inr (oid, ord), scheduleOrderCancellation s1 oid (paymentDeadline ord) now2))"

text \<open>Transactional variant: the writes go to the session; \<open>abortTransaction\<close> in
  the \<open>catch\<close> discards them, \<open>commitTransaction\<close> publishes them, and the timer
  is armed after the commit.\<close>

definition checkoutWithTransaction ::
  "int option \<Rightarrow> date \<Rightarrow> date \<Rightarrow> db \<Rightarrow> objectId \<Rightarrow> (error + objectId \<times> order) \<times> db" where
  "checkoutWithTransaction env now now2 s uid =
     (case checkoutSteps env now s uid of
        (Inl e, session) \<Rightarrow> (Inl e, s)
      | (Inr (oid, ord), session) \<Rightarrow>
          (Inr (oid, ord), scheduleOrderCancellation session oid (paymentDeadline ord) now2))"

text \<open>\<open>useTransactions\<close> is the outcome of \<open>supportsTransactions()\<close>.\<close>

definition checkout ::
  "bool \<Rightarrow> int option \<Rightarrow> date \<Rightarrow> date \<Rightarrow> db \<Rightarrow> objectId \<Rightarrow> (error + objectId \<times> order) \<times> db" where
  "checkout useTransactions env now now2 s uid =
     (if useTransactions then checkoutWithTransaction env now now2 s uid
      else checkoutWithoutTransaction env now now2 s uid)"

section \<open>Payment (orderService: processPayment and its two variants)\<close>

text \<open>The \<open>for (const item of order.items)\<close> loop: both counters are decremented
  on the loaded document, the negativity check comes before the save.\<close>

fun paymentLoop :: "db \<Rightarrow> order_item list \<Rightarrow> (error + unit) \<times> db" where
  "paymentLoop s [] = (Inr (), s)"
| "paymentLoop s (item # rest) =
     (case products s (productId item) of
        None \<Rightarrow> (Inl ProductNotFound, s)
      | Some p \<Rightarrow>
          let p' = p\<lparr>reservedStock := reservedStock p - quantity item,
                     stock := stock p - quantity item\<rparr> in
          if reservedStock p' < 0 \<or> stock p' < 0 then (Inl InvariantViolation, s)
          else paymentLoop (saveProduct s (productId item) p') rest)"

text \<open>\<open>Cart.findOneAndUpdate({ userId }, { items: [] })\<close>: no upsert, a user without
  a cart document stays without one.\<close>

definition clearCartOf :: "db \<Rightarrow> objectId \<Rightarrow> db" where
  "clearCartOf s uid =
     (case carts s uid of None \<Rightarrow> s | Some _ \<Rightarrow> s\<lparr>carts := (carts s)(uid \<mapsto> [])\<rparr>)"

text \<open>The body of the \<open>try\<close> block up to the cart update, shared by both variants.
  \<open>now\<close> is \<open>new Date()\<close>, \<open>txn\<close> the generated transaction id;
  \<open>Payment.create\<close> fails on the unique index of \<open>transactionId\<close>.\<close>

definition processPaymentSteps ::
  "date \<Rightarrow> string \<Rightarrow> db \<Rightarrow> objectId \<Rightarrow> objectId \<Rightarrow> (error + order \<times> payment) \<times> db" where
  "processPaymentSteps now txn s oid uid =
     (case findOrderById s oid of
        None \<Rightarrow> (Inl OrderNotFound, s)
      | Some ord \<Rightarrow>
          if userId ord \<noteq> uid then (Inl Forbidden, s)
          else if status ord \<noteq> PENDING_PAYMENT then (Inl (InvalidState (status ord)), s)
          else if now > paymentDeadline ord then (Inl DeadlineExpired, s)
          else
            (case paymentLoop s (items ord) of
               (Inl e, s1) \<Rightarrow> (Inl e, s1)
             | (Inr _, s1) \<Rightarrow>
                 let ord' = ord\<lparr>status := PAID\<rparr>;
                     s2 = saveOrder s1 oid ord' in
                 if txn \<in> set (map transactionId (payments s2)) then (Inl DuplicateKey, s2)
                 else
                   let pay = \<lparr>orderId = oid, transactionId = txn, amount = totalAmount ord',
                              paymentStatus = SUCCESS\<rparr>;
                       s3 = s2\<lparr>payments := payments s2 @ [pay]\<rparr>
                   in (Inr (ord', pay), clearCartOf s3 uid)))"

text \<open>After the database work: \<open>User.findById\<close> and \<open>queueConfirmationEmail\<close>.\<close>

definition queueConfirmationEmail :: "db \<Rightarrow> objectId \<Rightarrow> objectId \<Rightarrow> int \<Rightarrow> db" where
  "queueConfirmationEmail s uid oid amt =
     (case users s uid of
        None \<Rightarrow> s
      | Some email \<Rightarrow> s\<lparr>emailQueue := emailQueue s @ [(oid, email, amt)]\<rparr>)"

definition processPaymentWithoutTransaction ::
  "date \<Rightarrow> string \<Rightarrow> db \<Rightarrow> objectId \<Rightarrow> objectId \<Rightarrow> (error + order \<times> payment) \<times> db" where
  "processPaymentWithoutTransaction now txn s oid uid =
     (case processPaymentSteps now txn s oid uid of
        (Inl e, s1) \<Rightarrow> (Inl e, s1)
      | (Inr (ord, pay), s1) \<Rightarrow>
          (Inr (ord, pay), queueConfirmationEmail s1 uid oid (totalAmount ord)))"

definition processPaymentWithTransaction ::
  "date \<Rightarrow> string \<Rightarrow> db \<Rightarrow> objectId \<Rightarrow> objectId \<Rightarrow> (error + order \<times> payment) \<times> db" where
  "processPaymentWithTransaction now txn s oid uid =
     (case processPaymentSteps now txn s oid uid of
        (Inl e, session) \<Rightarrow> (Inl e, s)
      | (Inr (ord, pay), session) \<Rightarrow>
          (Inr (ord, pay), queueConfirmationEmail session uid oid (totalAmount ord)))"

definition processPayment ::
  "bool \<Rightarrow> date \<Rightarrow> string \<Rightarrow> db \<Rightarrow> objectId \<Rightarrow> objectId \<Rightarrow> (error + order \<times> payment) \<times> db" where
  "processPayment useTransactions now txn s oid uid =
     (if useTransactions then processPaymentWithTransaction now txn s oid uid
      else processPaymentWithoutTransaction now txn s oid uid)"

section \<open>Reading an order (orderService.getOrderById)\<close>

definition getOrderById ::
  "db \<Rightarrow> objectId \<Rightarrow> objectId \<Rightarrow> error + order \<times> (order_item \<times> product option) list" where
  "getOrderById s oid uid =
     (case findOrderById s oid of
        None \<Rightarrow> Inl OrderNotFound
      | Some ord \<Rightarrow>
          if userId ord \<noteq> uid then Inl Forbidden
          else Inr (ord, populate s (items ord)))"

section \<open>Cancellation (orderService: cancelOrder and its two variants)\<close>

text \<open>The release loop: a missing product is skipped, the counter is clamped at zero.\<close>

fun cancelLoop :: "db \<Rightarrow> order_item list \<Rightarrow> db" where
  "cancelLoop s [] = s"
| "cancelLoop s (item # rest) =
     (case products s (productId item) of
        None \<Rightarrow> cancelLoop s rest
      | Some p \<Rightarrow>
          let r = reservedStock p - quantity item in
          cancelLoop (saveProduct s (productId item) (p\<lparr>reservedStock := (if r < 0 then 0 else r)\<rparr>)) rest)"

text \<open>The result \<open>None\<close> is the \<open>return null\<close> of the guarded cases.\<close>

definition cancelOrderWithoutTransaction :: "db \<Rightarrow> objectId \<Rightarrow> order option \<times> db" where
  "cancelOrderWithoutTransaction s oid =
     (case findOrderById s oid of
        None \<Rightarrow> (None, s)
      | Some ord \<Rightarrow>
          if status ord \<noteq> PENDING_PAYMENT then (None, s)
          else
            let s1 = cancelLoop s (items ord);
                ord' = ord\<lparr>status := CANCELLED\<rparr>
            in (Some ord', saveOrder s1 oid ord'))"

text \<open>In the transactional variant the guarded cases abort the (empty) transaction.\<close>

definition cancelOrderWithTransaction :: "db \<Rightarrow> objectId \<Rightarrow> order option \<times> db" where
  "cancelOrderWithTransaction s oid =
     (case findOrderById s oid of
        None \<Rightarrow> (None, s)
      | Some ord \<Rightarrow>
          if status ord \<noteq> PENDING_PAYMENT then (None, s)
          else
            let session = cancelLoop s (items ord);
                ord' = ord\<lparr>status := CANCELLED\<rparr>
            in (Some ord', saveOrder session oid ord'))"

definition cancelOrder :: "bool \<Rightarrow> db \<Rightarrow> objectId \<Rightarrow> order option \<times> db" where
  "cancelOrder useTransactions s oid =
     (if useTransactions then cancelOrderWithTransaction s oid
      else cancelOrderWithoutTransaction s oid)"

section \<open>Admin status update (adminService.updateOrderStatus)\<close>

fun validTransitions :: "order_status \<Rightarrow> order_status list" where
  "validTransitions PENDING_PAYMENT = [CANCELLED]"
| "validTransitions PAID = [SHIPPED, CANCELLED]"
| "validTransitions SHIPPED = [DELIVERED]"
| "validTransitions DELIVERED = []"
| "validTransitions CANCELLED = []"

definition updateOrderStatus :: "db \<Rightarrow> objectId \<Rightarrow> order_status \<Rightarrow> (error + order) \<times> db" where
  "updateOrderStatus s oid newStatus =
     (case findOrderById s oid of
        None \<Rightarrow> (Inl OrderNotFound, s)
      | Some ord \<Rightarrow>
          let allowedStatuses = validTransitions (status ord) in
          if newStatus \<notin> set allowedStatuses
          then (Inl (InvalidTransition (status ord) newStatus), s)
          else
            let ord' = ord\<lparr>status := newStatus\<rparr>
            in (Inr ord', saveOrder s oid ord'))"

section \<open>Auxiliary notions for the statements\<close>

text \<open>The total quantity that the lines of a cart or of an order ask of one product
  (a product can occur on several lines).\<close>

definition qtyOf :: "objectId \<Rightarrow> ('a cart_item_scheme) list \<Rightarrow> int" where
  "qtyOf pid its = sum_list (map quantity (filter (\<lambda>it. productId it = pid) its))"

text \<open>The order line expected for a cart line: same product and quantity, and the
  price the product has in the store \<open>s\<close>.\<close>

definition snapshot :: "db \<Rightarrow> cart_item \<Rightarrow> order_item" where
  "snapshot s it = \<lparr>productId = productId it, quantity = quantity it,
      priceAtPurchase = (case products s (productId it) of None \<Rightarrow> 0 | Some p \<Rightarrow> price p)\<rparr>"

section \<open>A concrete store for the worked examples\<close>

text \<open>Two products, three carts (the second one asks more of product 2 than there is,
  the third is empty), one order awaiting payment that holds two units of product 1, and
  one delivered order.\<close>

definition shop :: db where
  "shop = \<lparr>products = [1 \<mapsto> \<lparr>price = 250, stock = 10, reservedStock = 2\<rparr>,
                        2 \<mapsto> \<lparr>price = 100, stock = 1, reservedStock = 0\<rparr>],
           carts = [7 \<mapsto> [\<lparr>productId = 1, quantity = 2\<rparr>],
                    8 \<mapsto> [\<lparr>productId = 1, quantity = 3\<rparr>, \<lparr>productId = 2, quantity = 5\<rparr>],
                    9 \<mapsto> []],
           orders = [\<lparr>userId = 7,
                      items = [\<lparr>productId = 1, quantity = 2, priceAtPurchase = 250\<rparr>],
                      totalAmount = 500, status = PENDING_PAYMENT, paymentDeadline = 900000\<rparr>,
                     \<lparr>userId = 8,
                      items = [\<lparr>productId = 2, quantity = 1, priceAtPurchase = 100\<rparr>],
                      totalAmount = 100, status = DELIVERED, paymentDeadline = 900000\<rparr>],
           payments = [],
           timers = [],
           users = [7 \<mapsto> ''ann@example.com'', 8 \<mapsto> ''bob@example.com''],
           emailQueue = []\<rparr>"


section \<open>Engine operations and the stock invariant\<close>

text \<open>The operations of the engine, with the inputs each call reads from its
  environment (transaction support, clock, configuration, generated transaction id), and
  the store each call leaves behind, whether it succeeds or throws.\<close>

datatype operation =
    Checkout bool "int option" date date objectId
  | ProcessPayment bool date string objectId objectId
  | CancelOrder bool objectId
  | UpdateOrderStatus objectId order_status

fun applyOperation :: "db \<Rightarrow> operation \<Rightarrow> db" where
  "applyOperation s (Checkout useTransactions env now now2 uid) =
     snd (checkout useTransactions env now now2 s uid)"
| "applyOperation s (ProcessPayment useTransactions now txn oid uid) =
     snd (processPayment useTransactions now txn s oid uid)"
| "applyOperation s (CancelOrder useTransactions oid) = snd (cancelOrder useTransactions s oid)"
| "applyOperation s (UpdateOrderStatus oid newStatus) = snd (updateOrderStatus s oid newStatus)"

fun trace :: "db \<Rightarrow> operation list \<Rightarrow> db list" where
  "trace s [] = []"
| "trace s (opn # opns) = applyOperation s opn # trace (applyOperation s opn) opns"

definition stockInvariant :: "db \<Rightarrow> bool" where
  "stockInvariant s \<longleftrightarrow>
     (\<forall>pid p. products s pid = Some p \<longrightarrow> 0 \<le> reservedStock p \<and> reservedStock p \<le> stock p)"

definition quantitiesValid :: "db \<Rightarrow> bool" where
  "quantitiesValid s \<longleftrightarrow>
     (\<forall>uid c. carts s uid = Some c \<longrightarrow> (\<forall>it \<in> set c. 1 \<le> quantity it)) \<and>
     (\<forall>ord \<in> set (orders s). \<forall>it \<in> set (items ord). 1 \<le> quantity it)"

text \<open>Stored documents that satisfy the invariant and whose quantities respect the
  schemas.\<close>

definition storeValid :: "db \<Rightarrow> bool" where
  "storeValid s \<longleftrightarrow> stockInvariant s \<and> quantitiesValid s"

section \<open>The loops: what they leave untouched and what they compute\<close>

lemma qtyOf_Nil [simp]: "qtyOf pid [] = 0"
  by (simp add: qtyOf_def)

lemma qtyOf_Cons [simp]:
  "qtyOf pid (it # its) = (if productId it = pid then quantity it else 0) + qtyOf pid its"
  by (simp add: qtyOf_def)

lemma cancelLoop_other: "cancelLoop s its = s\<lparr>products := products (cancelLoop s its)\<rparr>"
  by (induction s its rule: cancelLoop.induct)
     (auto simp: saveProduct_def Let_def split: option.splits)

lemma paymentLoop_other: "paymentLoop s its = (r, s') \<Longrightarrow> s' = s\<lparr>products := products s'\<rparr>"
  by (induction s its arbitrary: s' rule: paymentLoop.induct)
     (auto simp: saveProduct_def Let_def split: option.splits if_splits)

lemma checkoutLoop_other:
  "checkoutLoop s pits acc t = (r, s') \<Longrightarrow> s' = s\<lparr>products := products s'\<rparr>"
  by (induction s pits acc t arbitrary: s' rule: checkoutLoop.induct)
     (auto simp: saveProduct_def Let_def split: option.splits if_splits)



lemma checkoutLoop_items:
  "checkoutLoop s pits acc t = (Inr (oi, t'), s') \<Longrightarrow>
     oi = acc @ map (snapshot s) (map fst pits) \<and>
     t' = t + (\<Sum>it\<leftarrow>map (snapshot s) (map fst pits). priceAtPurchase it * quantity it) \<and>
     (\<forall>it \<in> set (map fst pits). products s (productId it) \<noteq> None)"
proof (induction s pits acc t arbitrary: s' rule: checkoutLoop.induct)
  case (1 s acc t)
  then show ?case by auto
next
  case (2 s item populated rest acc t)
  from "2.prems" obtain p0 p where pop: "populated = Some p0"
    and p: "products s (productId item) = Some p"
    and av: "\<not> stock p - reservedStock p < quantity item"
    by (auto simp: Let_def split: option.splits if_splits)
  let ?line = "\<lparr>productId = productId item, quantity = quantity item, priceAtPurchase = price p\<rparr>"
  let ?s1 = "saveProduct s (productId item) (p\<lparr>reservedStock := reservedStock p + quantity item\<rparr>)"
  have snap: "snapshot ?s1 = snapshot s"
    using p by (auto simp: snapshot_def saveProduct_def fun_eq_iff)
  have none: "\<And>x. products ?s1 x \<noteq> None \<longleftrightarrow> products s x \<noteq> None"
    using p by (auto simp: saveProduct_def)
  from "2.prems" pop p av
  have run: "checkoutLoop ?s1 rest (acc @ [?line]) (t + price p * quantity item) = (Inr (oi, t'), s')"
    by (simp add: Let_def)
  have ih: "oi = (acc @ [?line]) @ map (snapshot ?s1) (map fst rest) \<and>
     t' = (t + price p * quantity item)
            + (\<Sum>it\<leftarrow>map (snapshot ?s1) (map fst rest). priceAtPurchase it * quantity it) \<and>
     (\<forall>it \<in> set (map fst rest). products ?s1 (productId it) \<noteq> None)"
    using "2.IH"[OF pop p _ av run] by simp
  have here: "snapshot s item = ?line"
    using p by (simp add: snapshot_def)
  show ?case using ih p unfolding snap none by (simp add: here)
qed

lemma qtyOf_notin: "pid \<notin> productId ` set its \<Longrightarrow> qtyOf pid its = 0"
  by (induction its) auto

lemma qtyOf_nonneg: "\<forall>it \<in> set its. 0 \<le> quantity it \<Longrightarrow> 0 \<le> qtyOf pid its"
  by (induction its) auto

lemma products_frame:
  "s' = s\<lparr>products := x\<rparr> \<Longrightarrow>
     orders s' = orders s \<and> payments s' = payments s \<and> carts s' = carts s \<and>
     users s' = users s \<and> timers s' = timers s \<and> emailQueue s' = emailQueue s"
  by simp

lemma cancelLoop_products:
  "\<forall>it \<in> set its. 0 \<le> quantity it \<Longrightarrow>
     products (cancelLoop s its) pid =
       map_option (\<lambda>p. p\<lparr>reservedStock :=
                       (if pid \<in> productId ` set its
                        then max 0 (reservedStock p - qtyOf pid its) else reservedStock p)\<rparr>)
         (products s pid)"
proof (induction s its rule: cancelLoop.induct)
  case (1 s)
  then show ?case by (cases "products s pid") auto
next
  case (2 s item rest)
  have nn: "0 \<le> qtyOf pid rest" and q: "0 \<le> quantity item" and rest: "\<forall>it \<in> set rest. 0 \<le> quantity it"
    using "2.prems" by (auto intro: qtyOf_nonneg)
  show ?case
  proof (cases "products s (productId item)")
    case None
    with "2.IH"(1)[OF None rest] show ?thesis
      by (cases "productId item = pid") (auto cong: if_cong)
  next
    case (Some p)
    let ?r = "reservedStock p - quantity item"
    let ?s1 = "saveProduct s (productId item) (p\<lparr>reservedStock := (if ?r < 0 then 0 else ?r)\<rparr>)"
    have ih: "products (cancelLoop ?s1 rest) pid =
       map_option (\<lambda>p. p\<lparr>reservedStock :=
                       (if pid \<in> productId ` set rest
                        then max 0 (reservedStock p - qtyOf pid rest) else reservedStock p)\<rparr>)
         (products ?s1 pid)"
      using "2.IH"(2)[OF Some refl rest] by simp
    have step: "cancelLoop s (item # rest) = cancelLoop ?s1 rest"
      using Some by (simp add: Let_def)
    show ?thesis
    proof (cases "pid = productId item")
      case True
      have z: "pid \<notin> productId ` set rest \<Longrightarrow> qtyOf pid rest = 0" by (rule qtyOf_notin)
      show ?thesis unfolding step ih using True Some nn q z
        by (auto simp: saveProduct_def max_def)
    next
      case False
      then show ?thesis unfolding step ih using Some
        by (cases "products s pid") (auto simp: saveProduct_def)
    qed
  qed
qed

section \<open>Reading an order\<close>

text \<open>
  C10. \<open>getOrderById\<close> checks existence before ownership: an id with no order fails
  with NotFound (404); an existing order of another user fails with Forbidden (403) and
  the order is not returned; the owner receives the order (with its lines populated).
\<close>

theorem getOrderById_existence_then_owner:
  "(findOrderById s oid = None \<longrightarrow>
      getOrderById s oid uid = Inl OrderNotFound \<and> statusCode OrderNotFound = 404) \<and>
   (\<forall>ord. findOrderById s oid = Some ord \<and> userId ord \<noteq> uid \<longrightarrow>
      getOrderById s oid uid = Inl Forbidden \<and> statusCode Forbidden = 403) \<and>
   (\<forall>ord. findOrderById s oid = Some ord \<and> userId ord = uid \<longrightarrow>
      getOrderById s oid uid = Inr (ord, populate s (items ord)))"
  by (simp add: getOrderById_def)

theorem getOrderById_existence_then_owner_witness:
  "findOrderById shop 5 = None \<and> getOrderById shop 5 7 = Inl OrderNotFound \<and>
   findOrderById shop 0 = Some (orders shop ! 0) \<and> userId (orders shop ! 0) \<noteq> 8 \<and>
   getOrderById shop 0 8 = Inl Forbidden \<and>
   userId (orders shop ! 0) = 7 \<and>
   getOrderById shop 0 7 = Inr (orders shop ! 0, populate shop (items (orders shop ! 0)))"
proof -
  have a: "findOrderById shop 5 = None" by (simp add: findOrderById_def shop_def)
  have b: "findOrderById shop 0 = Some (orders shop ! 0)" by (simp add: findOrderById_def shop_def)
  have c: "userId (orders shop ! 0) \<noteq> 8" by (simp add: shop_def)
  have d: "userId (orders shop ! 0) = 7" by (simp add: shop_def)
  show ?thesis
    using getOrderById_existence_then_owner [of shop 5 7]
          getOrderById_existence_then_owner [of shop 0 8]
          getOrderById_existence_then_owner [of shop 0 7] a b c d
    by simp
qed

section \<open>The admin transition gate\<close>

text \<open>
  C9. For an existing order, \<open>updateOrderStatus\<close> applies the new status exactly for
  the transitions of the table that an admin can trigger (PENDING_PAYMENT to CANCELLED,
  PAID to SHIPPED or CANCELLED, SHIPPED to DELIVERED; PENDING_PAYMENT to PAID is the
  payment's transition and is refused here), and fails otherwise with InvalidTransition
  carrying the current and the attempted status, leaving the store unchanged. In
  particular every target fails for an order in DELIVERED or CANCELLED.
\<close>

theorem updateOrderStatus_gate:
  assumes "findOrderById s oid = Some ord"
  shows "updateOrderStatus s oid newStatus =
           (if (status ord, newStatus) \<in> {(PENDING_PAYMENT, CANCELLED), (PAID, SHIPPED),
                                          (PAID, CANCELLED), (SHIPPED, DELIVERED)}
            then (Inr (ord\<lparr>status := newStatus\<rparr>), s\<lparr>orders := (orders s)[oid := ord\<lparr>status := newStatus\<rparr>]\<rparr>)
            else (Inl (InvalidTransition (status ord) newStatus), s)) \<and>
         (status ord = DELIVERED \<or> status ord = CANCELLED \<longrightarrow>
            updateOrderStatus s oid newStatus = (Inl (InvalidTransition (status ord) newStatus), s))"
  using assms by (cases "status ord"; cases newStatus) (simp_all add: updateOrderStatus_def saveOrder_def Let_def)

theorem updateOrderStatus_gate_witness:
  "findOrderById shop 1 = Some (orders shop ! 1) \<and> status (orders shop ! 1) = DELIVERED \<and>
   updateOrderStatus shop 1 SHIPPED = (Inl (InvalidTransition DELIVERED SHIPPED), shop) \<and>
   findOrderById shop 0 = Some (orders shop ! 0) \<and>
   fst (updateOrderStatus shop 0 PAID) = Inl (InvalidTransition PENDING_PAYMENT PAID) \<and>
   fst (updateOrderStatus shop 0 CANCELLED) = Inr ((orders shop ! 0)\<lparr>status := CANCELLED\<rparr>)"
proof -
  have a: "findOrderById shop 1 = Some (orders shop ! 1)"
    and b: "findOrderById shop 0 = Some (orders shop ! 0)"
    by (simp_all add: findOrderById_def shop_def)
  have c: "status (orders shop ! 1) = DELIVERED" and d: "status (orders shop ! 0) = PENDING_PAYMENT"
    by (simp_all add: shop_def)
  show ?thesis
    using updateOrderStatus_gate [OF a, of SHIPPED] updateOrderStatus_gate [OF b, of PAID]
      updateOrderStatus_gate [OF b, of CANCELLED] a b c d
    by simp
qed

section \<open>Payment\<close>

text \<open>
  C7. For an order in PENDING_PAYMENT, \<open>processPayment\<close> called strictly after the
  payment deadline fails, in both modes, and returns the store as it was: no stock
  counter, no order and no payment record changes. The error is DeadlineExpired when
  the caller owns the order (the ownership check comes first: another user gets
  Forbidden).
\<close>

theorem processPayment_after_deadline:
  assumes "findOrderById s oid = Some ord" and "status ord = PENDING_PAYMENT"
    and "now > paymentDeadline ord"
  shows "processPayment useTransactions now txn s oid uid =
           (Inl (if userId ord = uid then DeadlineExpired else Forbidden), s)"
  using assms
  by (simp add: processPayment_def processPaymentWithTransaction_def
        processPaymentWithoutTransaction_def processPaymentSteps_def)

theorem processPayment_after_deadline_witness:
  "findOrderById shop 0 = Some (orders shop ! 0) \<and> status (orders shop ! 0) = PENDING_PAYMENT \<and>
   900001 > paymentDeadline (orders shop ! 0) \<and>
   processPayment True 900001 ''TXN-1'' shop 0 7 = (Inl DeadlineExpired, shop) \<and>
   processPayment False 900001 ''TXN-1'' shop 0 7 = (Inl DeadlineExpired, shop)"
proof -
  have a: "findOrderById shop 0 = Some (orders shop ! 0)"
    by (simp add: findOrderById_def shop_def)
  have b: "status (orders shop ! 0) = PENDING_PAYMENT" by (simp add: shop_def)
  have c: "900001 > paymentDeadline (orders shop ! 0)" by (simp add: shop_def)
  have d: "userId (orders shop ! 0) = 7" by (simp add: shop_def)
  show ?thesis
    using processPayment_after_deadline [OF a b c, of True "''TXN-1''" 7]
      processPayment_after_deadline [OF a b c, of False "''TXN-1''" 7] a b c d
    by simp
qed



section \<open>Cancellation\<close>

lemma orders_cancelLoop [simp]: "orders (cancelLoop s its) = orders s"
  by (subst cancelLoop_other) simp

text \<open>
  C8. \<open>cancelOrder\<close> is a guarded no-op: when the order is missing or not in
  PENDING_PAYMENT it returns \<open>null\<close> without error and the store is unchanged. On a
  pending order it sets the status to CANCELLED and releases, for each product, the
  quantity the order's lines hold of it (clamped at zero); a second call on the resulting
  store is again the no-op, so nothing is released twice. Both modes behave alike.
\<close>

theorem cancelOrder_guarded_idempotent:
  "((findOrderById s oid = None \<or>
      (\<exists>ord. findOrderById s oid = Some ord \<and> status ord \<noteq> PENDING_PAYMENT)) \<longrightarrow>
     cancelOrder useTransactions s oid = (None, s)) \<and>
   (\<forall>ord. findOrderById s oid = Some ord \<and> status ord = PENDING_PAYMENT \<longrightarrow>
      (let s1 = snd (cancelOrder useTransactions s oid) in
         fst (cancelOrder useTransactions s oid) = Some (ord\<lparr>status := CANCELLED\<rparr>) \<and>
         orders s1 = (orders s)[oid := ord\<lparr>status := CANCELLED\<rparr>] \<and>
         ((\<forall>it \<in> set (items ord). 0 \<le> quantity it) \<longrightarrow>
          (\<forall>pid. products s1 pid =
             map_option (\<lambda>p. p\<lparr>reservedStock :=
                       (if pid \<in> productId ` set (items ord)
                        then max 0 (reservedStock p - qtyOf pid (items ord))
                        else reservedStock p)\<rparr>) (products s pid))) \<and>
         cancelOrder useTransactions' s1 oid = (None, s1)))"
proof -
  have same: "cancelOrderWithTransaction = cancelOrderWithoutTransaction"
    by (simp add: fun_eq_iff cancelOrderWithTransaction_def cancelOrderWithoutTransaction_def)
  have mode: "\<And>b. cancelOrder b = cancelOrderWithoutTransaction"
    by (simp add: fun_eq_iff cancelOrder_def same)
  have guard: "(findOrderById s oid = None \<or>
      (\<exists>ord. findOrderById s oid = Some ord \<and> status ord \<noteq> PENDING_PAYMENT)) \<longrightarrow>
     cancelOrderWithoutTransaction s oid = (None, s)"
    by (auto simp: cancelOrderWithoutTransaction_def)
  have pending: "let s1 = snd (cancelOrderWithoutTransaction s oid) in
         fst (cancelOrderWithoutTransaction s oid) = Some (ord\<lparr>status := CANCELLED\<rparr>) \<and>
         orders s1 = (orders s)[oid := ord\<lparr>status := CANCELLED\<rparr>] \<and>
         ((\<forall>it \<in> set (items ord). 0 \<le> quantity it) \<longrightarrow>
          (\<forall>pid. products s1 pid =
             map_option (\<lambda>p. p\<lparr>reservedStock :=
                       (if pid \<in> productId ` set (items ord)
                        then max 0 (reservedStock p - qtyOf pid (items ord))
                        else reservedStock p)\<rparr>) (products s pid))) \<and>
         cancelOrderWithoutTransaction s1 oid = (None, s1)"
    if f: "findOrderById s oid = Some ord" and st: "status ord = PENDING_PAYMENT" for ord
  proof -
    let ?ord' = "ord\<lparr>status := CANCELLED\<rparr>"
    let ?s1 = "saveOrder (cancelLoop s (items ord)) oid ?ord'"
    have run: "cancelOrderWithoutTransaction s oid = (Some ?ord', ?s1)"
      using f st by (simp add: cancelOrderWithoutTransaction_def Let_def)
    have lt: "oid < length (orders s)" using f by (simp add: findOrderById_def split: if_splits)
    have again: "cancelOrderWithoutTransaction ?s1 oid = (None, ?s1)"
      using lt by (simp add: cancelOrderWithoutTransaction_def findOrderById_def saveOrder_def)
    have prods: "products ?s1 = products (cancelLoop s (items ord))"
      by (simp add: saveOrder_def)
    show ?thesis
      unfolding run Let_def using again
      by (simp add: prods cancelLoop_products) (simp add: saveOrder_def)
  qed
  show ?thesis unfolding mode using guard pending by blast
qed

theorem cancelOrder_guarded_idempotent_witness:
  "findOrderById shop 5 = None \<and> cancelOrder False shop 5 = (None, shop) \<and>
   findOrderById shop 1 = Some (orders shop ! 1) \<and> status (orders shop ! 1) \<noteq> PENDING_PAYMENT \<and>
   cancelOrder True shop 1 = (None, shop) \<and>
   findOrderById shop 0 = Some (orders shop ! 0) \<and> status (orders shop ! 0) = PENDING_PAYMENT \<and>
   list_all (\<lambda>it. 0 \<le> quantity it) (items (orders shop ! 0)) \<and>
   map_option status (fst (cancelOrder False shop 0)) = Some CANCELLED \<and>
   map_option reservedStock (products shop 1) = Some 2 \<and>
   map_option reservedStock (products (snd (cancelOrder False shop 0)) 1) = Some 0 \<and>
   cancelOrder True (snd (cancelOrder False shop 0)) 0 = (None, snd (cancelOrder False shop 0))"
proof -
  have a: "findOrderById shop 5 = None"
    and b: "findOrderById shop 1 = Some (orders shop ! 1)"
    and c: "findOrderById shop 0 = Some (orders shop ! 0)"
    by (simp_all add: findOrderById_def shop_def)
  have d: "status (orders shop ! 1) \<noteq> PENDING_PAYMENT"
    and e: "status (orders shop ! 0) = PENDING_PAYMENT"
    and f: "\<forall>it \<in> set (items (orders shop ! 0)). 0 \<le> quantity it"
    and g: "items (orders shop ! 0) = [\<lparr>productId = 1, quantity = 2, priceAtPurchase = 250\<rparr>]"
    and h: "products shop 1 = Some \<lparr>price = 250, stock = 10, reservedStock = 2\<rparr>"
    by (simp_all add: shop_def)
  have h': "products shop (Suc 0) = Some \<lparr>price = 250, stock = 10, reservedStock = 2\<rparr>"
    by (simp add: shop_def)
  from cancelOrder_guarded_idempotent [of shop 5 False] a
  have 1: "cancelOrder False shop 5 = (None, shop)" by simp
  from cancelOrder_guarded_idempotent [of shop 1 True] b d
  have 2: "cancelOrder True shop 1 = (None, shop)" by simp
  from cancelOrder_guarded_idempotent [of shop 0 False True] c e f
  have 3: "fst (cancelOrder False shop 0) = Some ((orders shop ! 0)\<lparr>status := CANCELLED\<rparr>) \<and>
           map_option reservedStock (products (snd (cancelOrder False shop 0)) 1) = Some 0 \<and>
           cancelOrder True (snd (cancelOrder False shop 0)) 0 = (None, snd (cancelOrder False shop 0))"
    by (simp add: Let_def g h')
  show ?thesis using a b c d e f 1 2 3 by (simp add: h' list_all_iff)
qed

section \<open>Checkout\<close>







section \<open>The stock invariant\<close>

lemma stockInvariant_cong: "products s' = products s \<Longrightarrow> stockInvariant s' = stockInvariant s"
  by (simp add: stockInvariant_def)

lemma quantitiesValid_cong:
  "carts s' = carts s \<Longrightarrow> orders s' = orders s \<Longrightarrow> quantitiesValid s' = quantitiesValid s"
  by (simp add: quantitiesValid_def)

lemma stockInvariant_saveProduct:
  "stockInvariant s \<Longrightarrow> 0 \<le> reservedStock p \<Longrightarrow> reservedStock p \<le> stock p \<Longrightarrow>
     stockInvariant (saveProduct s pid p)"
  by (simp add: stockInvariant_def saveProduct_def)

lemma checkoutLoop_stockInvariant:
  "stockInvariant s \<Longrightarrow> \<forall>x \<in> set pits. 0 \<le> quantity (fst x) \<Longrightarrow>
     checkoutLoop s pits acc t = (r, s') \<Longrightarrow> stockInvariant s'"
proof (induction s pits acc t arbitrary: s' r rule: checkoutLoop.induct)
  case (1 s acc t)
  then show ?case by simp
next
  case (2 s item populated rest acc t)
  show ?case
  proof (cases "\<exists>p0 p. populated = Some p0 \<and> products s (productId item) = Some p
                   \<and> \<not> stock p - reservedStock p < quantity item")
    case False
    with "2.prems" show ?thesis
      by (auto simp: Let_def split: option.splits if_splits)
  next
    case True
    then obtain p0 p where pop: "populated = Some p0"
      and p: "products s (productId item) = Some p"
      and av: "\<not> stock p - reservedStock p < quantity item" by blast
    let ?p' = "p\<lparr>reservedStock := reservedStock p + quantity item\<rparr>"
    have q: "0 \<le> quantity item" using "2.prems"(2) by simp
    have old: "0 \<le> reservedStock p" using "2.prems"(1) p by (simp add: stockInvariant_def)
    have inv1: "stockInvariant (saveProduct s (productId item) ?p')"
      using "2.prems"(1) q old av by (intro stockInvariant_saveProduct) simp_all
    from "2.prems"(3) pop p av
    have run: "checkoutLoop (saveProduct s (productId item) ?p') rest
        (acc @ [\<lparr>productId = productId item, quantity = quantity item, priceAtPurchase = price p\<rparr>])
        (t + price p * quantity item) = (r, s')"
      by (simp add: Let_def)
    show ?thesis
      using "2.IH"[OF pop p _ av inv1 _ run] "2.prems"(2) by simp
  qed
qed

lemma paymentLoop_stockInvariant:
  "stockInvariant s \<Longrightarrow> paymentLoop s its = (r, s') \<Longrightarrow> stockInvariant s'"
proof (induction s its arbitrary: s' r rule: paymentLoop.induct)
  case (1 s)
  then show ?case by simp
next
  case (2 s item rest)
  show ?case
  proof (cases "products s (productId item)")
    case None
    with "2.prems" show ?thesis by simp
  next
    case (Some p)
    let ?p' = "p\<lparr>reservedStock := reservedStock p - quantity item, stock := stock p - quantity item\<rparr>"
    show ?thesis
    proof (cases "reservedStock ?p' < 0 \<or> stock ?p' < 0")
      case True
      with "2.prems" Some show ?thesis by (simp add: Let_def)
    next
      case False
      have le: "reservedStock p \<le> stock p" using "2.prems"(1) Some by (simp add: stockInvariant_def)
      have inv1: "stockInvariant (saveProduct s (productId item) ?p')"
        using "2.prems"(1) False le by (intro stockInvariant_saveProduct) simp_all
      from "2.prems"(2) Some False
      have run: "paymentLoop (saveProduct s (productId item) ?p') rest = (r, s')"
        by (simp add: Let_def)
      show ?thesis using "2.IH"[OF Some refl False inv1 run] .
    qed
  qed
qed

lemma cancelLoop_stockInvariant:
  "stockInvariant s \<Longrightarrow> \<forall>it \<in> set its. 0 \<le> quantity it \<Longrightarrow> stockInvariant (cancelLoop s its)"
proof (induction s its rule: cancelLoop.induct)
  case (1 s)
  then show ?case by simp
next
  case (2 s item rest)
  show ?case
  proof (cases "products s (productId item)")
    case None
    with 2 show ?thesis by simp
  next
    case (Some p)
    let ?r = "reservedStock p - quantity item"
    let ?p' = "p\<lparr>reservedStock := (if ?r < 0 then 0 else ?r)\<rparr>"
    have le: "0 \<le> reservedStock p" "reservedStock p \<le> stock p"
      using "2.prems"(1) Some by (simp_all add: stockInvariant_def)
    have q: "0 \<le> quantity item" using "2.prems"(2) by simp
    have inv1: "stockInvariant (saveProduct s (productId item) ?p')"
      using "2.prems"(1) le q by (intro stockInvariant_saveProduct) auto
    show ?thesis
      using "2.IH"(2)[OF Some refl inv1] "2.prems"(2) Some by (simp add: Let_def)
  qed
qed

lemma quantitiesValid_status:
  assumes "quantitiesValid s" and "findOrderById s oid = Some ord"
    and "carts s' = carts s" and "orders s' = (orders s)[oid := ord\<lparr>status := st\<rparr>]"
  shows "quantitiesValid s'"
proof -
  have mem: "ord \<in> set (orders s)"
    using assms(2) by (auto simp: findOrderById_def split: if_splits)
  have old: "\<forall>x \<in> set (orders s). \<forall>it \<in> set (items x). 1 \<le> quantity it"
    using assms(1) by (simp add: quantitiesValid_def)
  have new: "\<forall>it \<in> set (items (ord\<lparr>status := st\<rparr>)). 1 \<le> quantity it"
    using old mem by simp
  have "\<forall>x \<in> set (orders s'). \<forall>it \<in> set (items x). 1 \<le> quantity it"
  proof
    fix x assume "x \<in> set (orders s')"
    then have "x \<in> insert (ord\<lparr>status := st\<rparr>) (set (orders s))"
      unfolding assms(4) using set_update_subset_insert by fast
    then show "\<forall>it \<in> set (items x). 1 \<le> quantity it"
      using old new by blast
  qed
  then show ?thesis
    using assms(1) unfolding quantitiesValid_def assms(3) by simp
qed

lemma updateOrderStatus_storeValid:
  assumes "storeValid s" shows "storeValid (snd (updateOrderStatus s oid newStatus))"
proof (cases "fst (updateOrderStatus s oid newStatus)")
  case (Inl e)
  then have "snd (updateOrderStatus s oid newStatus) = s"
    by (auto simp: updateOrderStatus_def Let_def split: option.splits if_splits)
  with assms show ?thesis by simp
next
  case (Inr ord')
  then obtain ord where f: "findOrderById s oid = Some ord"
    and s': "snd (updateOrderStatus s oid newStatus) = saveOrder s oid (ord\<lparr>status := newStatus\<rparr>)"
    by (auto simp: updateOrderStatus_def Let_def split: option.splits if_splits)
  have "stockInvariant (saveOrder s oid (ord\<lparr>status := newStatus\<rparr>))"
    using assms by (simp add: storeValid_def stockInvariant_def saveOrder_def)
  moreover have "quantitiesValid (saveOrder s oid (ord\<lparr>status := newStatus\<rparr>))"
    using quantitiesValid_status[OF _ f, of "saveOrder s oid (ord\<lparr>status := newStatus\<rparr>)" newStatus] assms
    by (simp add: storeValid_def saveOrder_def)
  ultimately show ?thesis unfolding s' storeValid_def by simp
qed

lemma cancelOrder_storeValid:
  assumes "storeValid s" shows "storeValid (snd (cancelOrder useTransactions s oid))"
proof -
  have mode: "cancelOrder useTransactions s oid = cancelOrderWithoutTransaction s oid"
    by (simp add: cancelOrder_def cancelOrderWithTransaction_def cancelOrderWithoutTransaction_def)
  show ?thesis
  proof (cases "\<exists>ord. findOrderById s oid = Some ord \<and> status ord = PENDING_PAYMENT")
    case False
    then have "cancelOrderWithoutTransaction s oid = (None, s)"
      by (auto simp: cancelOrderWithoutTransaction_def split: option.splits)
    with assms mode show ?thesis by simp
  next
    case True
    then obtain ord where f: "findOrderById s oid = Some ord" and st: "status ord = PENDING_PAYMENT"
      by blast
    let ?s1 = "cancelLoop s (items ord)"
    let ?s2 = "saveOrder ?s1 oid (ord\<lparr>status := CANCELLED\<rparr>)"
    have run: "snd (cancelOrderWithoutTransaction s oid) = ?s2"
      using f st by (simp add: cancelOrderWithoutTransaction_def Let_def)
    have mem: "ord \<in> set (orders s)"
      using f by (auto simp: findOrderById_def split: if_splits)
    have q: "\<forall>it \<in> set (items ord). 0 \<le> quantity it"
    proof
      fix it assume "it \<in> set (items ord)"
      moreover have "\<forall>x \<in> set (orders s). \<forall>it \<in> set (items x). 1 \<le> quantity it"
        using assms by (simp add: storeValid_def quantitiesValid_def)
      ultimately have "1 \<le> quantity it" using mem by blast
      then show "0 \<le> quantity it" by simp
    qed
    have "stockInvariant ?s1" using assms q by (intro cancelLoop_stockInvariant) (simp_all add: storeValid_def)
    then have 1: "stockInvariant ?s2" by (simp add: stockInvariant_def saveOrder_def)
    note fr = products_frame[OF cancelLoop_other[of s "items ord"]]
    have 2: "quantitiesValid ?s2"
      using quantitiesValid_status[OF _ f, of ?s2 CANCELLED] assms fr
      by (simp add: storeValid_def saveOrder_def)
    show ?thesis unfolding mode run storeValid_def using 1 2 by simp
  qed
qed

lemma processPaymentSteps_storeValid:
  assumes "storeValid s" and "processPaymentSteps now txn s oid uid = (r, s')"
  shows "storeValid s'"
proof (cases "\<exists>ord. findOrderById s oid = Some ord \<and> userId ord = uid \<and>
                status ord = PENDING_PAYMENT \<and> \<not> now > paymentDeadline ord")
  case False
  then have "s' = s" using assms(2)
    by (auto simp: processPaymentSteps_def split: option.splits if_splits)
  with assms(1) show ?thesis by simp
next
  case True
  then obtain ord where f: "findOrderById s oid = Some ord" and g: "userId ord = uid"
    "status ord = PENDING_PAYMENT" "\<not> now > paymentDeadline ord" by blast
  obtain r1 s1 where loop: "paymentLoop s (items ord) = (r1, s1)" by (cases "paymentLoop s (items ord)")
  have inv1: "stockInvariant s1"
    using assms(1) loop by (auto simp: storeValid_def intro: paymentLoop_stockInvariant)
  note fr = products_frame[OF paymentLoop_other[OF loop]]
  have qv1: "quantitiesValid s1"
    using assms(1) fr by (simp add: storeValid_def quantitiesValid_cong[of s1 s])
  show ?thesis
  proof (cases r1)
    case (Inl e)
    then have "s' = s1" using assms(2) f g loop by (simp add: processPaymentSteps_def)
    with inv1 qv1 show ?thesis by (simp add: storeValid_def)
  next
    case (Inr u)
    let ?s2 = "saveOrder s1 oid (ord\<lparr>status := PAID\<rparr>)"
    have inv2: "stockInvariant ?s2" using inv1 by (simp add: stockInvariant_def saveOrder_def)
    have qv2: "quantitiesValid ?s2"
      using quantitiesValid_status[OF _ f, of ?s2 PAID] assms(1) fr
      by (simp add: storeValid_def saveOrder_def)
    show ?thesis
    proof (cases "txn \<in> set (map transactionId (payments ?s2))")
      case True
      then have "s' = ?s2" using assms(2) f g loop Inr
        by (simp add: processPaymentSteps_def Let_def)
      with inv2 qv2 show ?thesis by (simp add: storeValid_def)
    next
      case False
      let ?pay = "\<lparr>orderId = oid, transactionId = txn, amount = totalAmount (ord\<lparr>status := PAID\<rparr>),
                     paymentStatus = SUCCESS\<rparr>"
      let ?s3 = "?s2\<lparr>payments := payments ?s2 @ [?pay]\<rparr>"
      from False have s': "s' = clearCartOf ?s3 uid" using assms(2) f g loop Inr
        by (simp add: processPaymentSteps_def Let_def)
      have inv3: "stockInvariant s'" unfolding s' using inv2
        by (simp add: stockInvariant_def clearCartOf_def split: option.splits)
      have qv3: "quantitiesValid s'" unfolding s' using qv2
        by (simp add: quantitiesValid_def clearCartOf_def split: option.splits)
      from inv3 qv3 show ?thesis by (simp add: storeValid_def)
    qed
  qed
qed

lemma processPayment_storeValid:
  assumes "storeValid s" shows "storeValid (snd (processPayment useTransactions now txn s oid uid))"
proof -
  obtain r s1 where steps: "processPaymentSteps now txn s oid uid = (r, s1)"
    by (cases "processPaymentSteps now txn s oid uid")
  have valid1: "storeValid s1" using assms steps by (rule processPaymentSteps_storeValid)
  have q: "\<And>x a. storeValid x \<Longrightarrow> storeValid (queueConfirmationEmail x uid oid a)"
    by (simp add: storeValid_def stockInvariant_def quantitiesValid_def queueConfirmationEmail_def
          split: option.splits)
  show ?thesis
    using assms valid1 q steps
    by (cases useTransactions; cases r)
       (auto simp: processPayment_def processPaymentWithTransaction_def
          processPaymentWithoutTransaction_def split: prod.splits)
qed

lemma checkoutSteps_storeValid:
  assumes "storeValid s" and "checkoutSteps env now s uid = (r, s')"
  shows "storeValid s'"
proof (cases "\<exists>cartItems. carts s uid = Some cartItems \<and> cartItems \<noteq> []")
  case False
  then have "s' = s" using assms(2)
    by (auto simp: checkoutSteps_def split: option.splits if_splits)
  with assms(1) show ?thesis by simp
next
  case True
  then obtain cartItems where cart: "carts s uid = Some cartItems" and ne: "cartItems \<noteq> []"
    by blast
  have q1: "\<forall>it \<in> set cartItems. 1 \<le> quantity it"
    using assms(1) cart unfolding storeValid_def quantitiesValid_def by blast
  obtain r1 s1 where loop: "checkoutLoop s (populate s cartItems) [] 0 = (r1, s1)"
    by (cases "checkoutLoop s (populate s cartItems) [] 0")
  have q0: "\<forall>x \<in> set (populate s cartItems). 0 \<le> quantity (fst x)"
    using q1 by (auto simp: populate_def)
  have inv1: "stockInvariant s1"
    using assms(1) q0 loop by (auto simp: storeValid_def intro: checkoutLoop_stockInvariant)
  note fr = products_frame[OF checkoutLoop_other[OF loop]]
  have qv1: "quantitiesValid s1"
    using assms(1) fr by (simp add: storeValid_def quantitiesValid_cong[of s1 s])
  show ?thesis
  proof (cases r1)
    case (Inl e)
    then have "s' = s1" using assms(2) cart ne loop by (simp add: checkoutSteps_def)
    with inv1 qv1 show ?thesis by (simp add: storeValid_def)
  next
    case (Inr res)
    obtain oi t where res: "res = (oi, t)" by (cases res)
    let ?ord = "\<lparr>userId = uid, items = oi, totalAmount = t, status = PENDING_PAYMENT,
                 paymentDeadline = now + timeoutMinutes env * 60 * 1000\<rparr>"
    have s': "s' = s1\<lparr>orders := orders s1 @ [?ord]\<rparr>"
      using assms(2) cart ne loop Inr res by (simp add: checkoutSteps_def Let_def)
    have fsts: "map fst (populate s cartItems) = cartItems"
      by (simp add: populate_def comp_def)
    have oi: "oi = map (snapshot s) cartItems"
      using checkoutLoop_items[OF loop[unfolded Inr res], unfolded fsts] by simp
    have q2: "\<forall>it \<in> set oi. 1 \<le> quantity it"
      unfolding oi using q1 by (simp add: snapshot_def)
    have "stockInvariant s'" unfolding s' using inv1 by (simp add: stockInvariant_def)
    moreover have "quantitiesValid s'" unfolding s' using qv1 q2
      by (simp add: quantitiesValid_def)
    ultimately show ?thesis by (simp add: storeValid_def)
  qed
qed

lemma checkout_storeValid:
  assumes "storeValid s" shows "storeValid (snd (checkout useTransactions env now now2 s uid))"
proof -
  obtain r s1 where steps: "checkoutSteps env now s uid = (r, s1)"
    by (cases "checkoutSteps env now s uid")
  have valid1: "storeValid s1" using assms steps by (rule checkoutSteps_storeValid)
  have q: "\<And>x a b. storeValid x \<Longrightarrow> storeValid (scheduleOrderCancellation x a b now2)"
    by (simp add: storeValid_def stockInvariant_def quantitiesValid_def scheduleOrderCancellation_def Let_def)
  show ?thesis
    using assms valid1 q steps
    by (cases useTransactions; cases r)
       (auto simp: checkout_def checkoutWithTransaction_def
          checkoutWithoutTransaction_def split: prod.splits)
qed

lemma applyOperation_storeValid: "storeValid s \<Longrightarrow> storeValid (applyOperation s opn)"
  by (cases opn) (simp_all add: checkout_storeValid processPayment_storeValid cancelOrder_storeValid updateOrderStatus_storeValid)

lemma trace_storeValid: "storeValid s \<Longrightarrow> \<forall>s' \<in> set (trace s opns). storeValid s'"
proof (induction opns arbitrary: s)
  case Nil
  then show ?case by simp
next
  case (Cons opn opns)
  have "storeValid (applyOperation s opn)" using Cons.prems by (rule applyOperation_storeValid)
  with Cons.IH[of "applyOperation s opn"] show ?case by simp
qed

text \<open>
  C4. Starting from a store in which every product satisfies
  \<open>0 \<le> reservedStock \<le> stock\<close> (and whose cart and order quantities respect the
  schemas' minimum of 1), the invariant holds after each operation of any sequence of
  checkouts, payments, cancellations and admin status updates, in either mode and whether
  the operations succeed or throw. The mechanisms: a reservation is refused when
  \<open>stock - reservedStock\<close> is below the requested quantity, a commit that would make
  a counter negative is refused, and a release clamps reservedStock at zero.
\<close>

theorem stock_invariant_preserved:
  assumes "stockInvariant s" and "quantitiesValid s"
  shows "(\<forall>s' \<in> set (trace s opns). stockInvariant s') \<and>
         (products x (productId item) = Some p \<and> stock p - reservedStock p < quantity item \<longrightarrow>
            checkoutLoop x ((item, Some pop) # pits) acc t =
              (Inl (InsufficientStock (stock p - reservedStock p)), x)) \<and>
         (products x (productId line) = Some p \<and>
            (reservedStock p - quantity line < 0 \<or> stock p - quantity line < 0) \<longrightarrow>
            paymentLoop x (line # its) = (Inl InvariantViolation, x)) \<and>
         (products x (productId line) = Some p \<longrightarrow>
            products (cancelLoop x [line]) (productId line) =
              Some (p\<lparr>reservedStock := max 0 (reservedStock p - quantity line)\<rparr>))"
proof -
  have "storeValid s" using assms by (simp add: storeValid_def)
  then have "\<forall>s' \<in> set (trace s opns). storeValid s'" by (rule trace_storeValid)
  then have 1: "\<forall>s' \<in> set (trace s opns). stockInvariant s'" by (simp add: storeValid_def)
  have 2: "products x (productId item) = Some p \<and> stock p - reservedStock p < quantity item \<longrightarrow>
            checkoutLoop x ((item, Some pop) # pits) acc t =
              (Inl (InsufficientStock (stock p - reservedStock p)), x)"
    by (simp add: Let_def)
  have 3: "products x (productId line) = Some p \<and>
            (reservedStock p - quantity line < 0 \<or> stock p - quantity line < 0) \<longrightarrow>
            paymentLoop x (line # its) = (Inl InvariantViolation, x)"
    by (auto simp: Let_def)
  have 4: "products x (productId line) = Some p \<longrightarrow>
            products (cancelLoop x [line]) (productId line) =
              Some (p\<lparr>reservedStock := max 0 (reservedStock p - quantity line)\<rparr>)"
    by (auto simp: Let_def saveProduct_def max_def)
  from 1 2 3 4 show ?thesis by blast
qed

lemma shop_stockInvariant: "stockInvariant shop"
  by (simp add: stockInvariant_def shop_def)

lemma shop_quantitiesValid: "quantitiesValid shop"
  by (simp add: quantitiesValid_def shop_def)

theorem stock_invariant_preserved_witness:
  "stockInvariant shop \<and> quantitiesValid shop \<and>
   list_all stockInvariant
     (trace shop [Checkout False None 1000 1001 8, ProcessPayment False 5 ''TXN-1'' 0 7,
                  CancelOrder True 0, UpdateOrderStatus 1 SHIPPED,
                  Checkout True (Some 30) 2000 2001 7]) \<and>
   products shop 2 = Some \<lparr>price = 100, stock = 1, reservedStock = 0\<rparr> \<and>
   checkoutLoop shop [(\<lparr>productId = 2, quantity = 5\<rparr>, products shop 2)] [] 0 =
     (Inl (InsufficientStock 1), shop) \<and>
   paymentLoop shop [\<lparr>productId = 2, quantity = 1, priceAtPurchase = 100\<rparr>] =
     (Inl InvariantViolation, shop) \<and>
   products (cancelLoop shop [\<lparr>productId = 2, quantity = 1, priceAtPurchase = 100\<rparr>]) 2 =
     Some \<lparr>price = 100, stock = 1, reservedStock = 0\<rparr>"
proof -
  have h: "products shop 2 = Some \<lparr>price = 100, stock = 1, reservedStock = 0\<rparr>"
    by (simp add: shop_def)
  note inst = stock_invariant_preserved [OF shop_stockInvariant shop_quantitiesValid,
      where x = shop and p = "\<lparr>price = 100, stock = 1, reservedStock = 0\<rparr>"
        and pop = "\<lparr>price = 100, stock = 1, reservedStock = 0\<rparr>"]
  from inst [where item = "\<lparr>productId = 2, quantity = 5\<rparr>" and pits = "[]" and acc = "[]" and t = 0
      and line = "\<lparr>productId = 2, quantity = 1, priceAtPurchase = 100\<rparr>" and its = "[]"
      and opns = "[Checkout False None 1000 1001 8, ProcessPayment False 5 ''TXN-1'' 0 7,
                           CancelOrder True 0, UpdateOrderStatus 1 SHIPPED,
                           Checkout True (Some 30) 2000 2001 7]"]
  show ?thesis
    using shop_stockInvariant shop_quantitiesValid h by (simp add: list_all_iff)
qed

section \<open>Failures partway through a loop\<close>









section \<open>Admin cancellation of a pending order\<close>

text \<open>
  C2. On the store \<open>shop\<close>, order 0 is in PENDING_PAYMENT and holds two units of
  product 1. \<open>updateOrderStatus\<close> to CANCELLED succeeds and sets the status, but the
  products are left as they are: product 1 keeps reservedStock 2, where \<open>cancelOrder\<close>
  on the same order brings it to 0. A later \<open>cancelOrder\<close> (the expiry timer) finds the
  order already cancelled and is a no-op, so the reservation is never released.
\<close>

theorem updateOrderStatus_cancel_leaves_reservation:
  "map_option status (findOrderById shop 0) = Some PENDING_PAYMENT \<and>
   fst (updateOrderStatus shop 0 CANCELLED) = Inr ((orders shop ! 0)\<lparr>status := CANCELLED\<rparr>) \<and>
   products (snd (updateOrderStatus shop 0 CANCELLED)) = products shop \<and>
   products shop 1 = Some \<lparr>price = 250, stock = 10, reservedStock = 2\<rparr> \<and>
   products (snd (cancelOrder False shop 0)) 1 = Some \<lparr>price = 250, stock = 10, reservedStock = 0\<rparr> \<and>
   cancelOrder False (snd (updateOrderStatus shop 0 CANCELLED)) 0 =
     (None, snd (updateOrderStatus shop 0 CANCELLED))"
  by (simp add: updateOrderStatus_def cancelOrder_def cancelOrderWithoutTransaction_def
        findOrderById_def saveOrder_def saveProduct_def shop_def Let_def)

end
